theory Spec2Isabelle
  imports Complex_Main
begin

section \<open>Text\<close>

text \<open>
  A text is a \<^typ>\<open>string\<close>: a sequence of code units below 256, each the character
  of that code point (ASCII and the Latin-1 supplement). \<open>toLowerCase\<close> is
  \<open>String.prototype.toLowerCase\<close> on such a text: the capitals \<open>A\<close> to \<open>Z\<close> (65 to
  90) and the capitals of the Latin-1 supplement (192 to 214 and 216 to 222) go to their
  small letters, 32 code units above; every other code unit below 256 stays as it is
  (215 is the multiplication sign, and 181, 223 and 255 are small letters). Texts with a
  code unit of 256 or more are not values of this type.
\<close>

definition lowerChar :: "char \<Rightarrow> char" where
  "lowerChar c =
     (let n = (of_char c :: nat)
      in if (65 \<le> n \<and> n \<le> 90) \<or> (192 \<le> n \<and> n \<le> 214) \<or> (216 \<le> n \<and> n \<le> 222)
         then char_of (n + 32) else c)"

definition toLowerCase :: "string \<Rightarrow> string" where
  "toLowerCase s = map lowerChar s"

fun startsWith :: "string \<Rightarrow> string \<Rightarrow> bool" where
  "startsWith s [] = True"
| "startsWith [] (p # ps) = False"
| "startsWith (c # cs) (p # ps) = (c = p \<and> startsWith cs ps)"

text \<open>\<open>includesStr s p\<close> is the test \<open>s.includes(p)\<close>: \<open>p\<close> occurs in \<open>s\<close> as a substring.\<close>

fun includesStr :: "string \<Rightarrow> string \<Rightarrow> bool" where
  "includesStr [] p = (p = [])"
| "includesStr (c # cs) p = (startsWith (c # cs) p \<or> includesStr cs p)"

text \<open>\<open>join sep xs\<close> is \<open>xs.join(sep)\<close>.\<close>

fun join :: "string \<Rightarrow> string list \<Rightarrow> string" where
  "join sep [] = []"
| "join sep [x] = x"
| "join sep (x # y # ys) = x @ sep @ join sep (y # ys)"

section \<open>Values of the host language\<close>

text \<open>
  The fields of a verdict hold values of the host language: on the path through the
  external classifier they are whatever the parsed reply holds. A number is a double:
  a finite value, one of the two infinities, or NaN.
\<close>

datatype jsnumber = NaN | Finite real | PosInfinity | NegInfinity

datatype jsvalue =
    JUndefined
  | JNull
  | JBool bool
  | JNum jsnumber
  | JStr string
  | JArr "jsvalue list"
  | JObj "(string \<times> jsvalue) list"

text \<open>\<open>truthy v\<close> is the conversion to a boolean that \<open>if (v)\<close> and \<open>v && w\<close> apply.\<close>

fun truthy :: "jsvalue \<Rightarrow> bool" where
  "truthy JUndefined = False"
| "truthy JNull = False"
| "truthy (JBool b) = b"
| "truthy (JNum NaN) = False"
| "truthy (JNum (Finite r)) = (r \<noteq> 0)"
| "truthy (JNum PosInfinity) = True"
| "truthy (JNum NegInfinity) = True"
| "truthy (JStr s) = (s \<noteq> [])"
| "truthy (JArr xs) = True"
| "truthy (JObj kvs) = True"

record verdict =
  isSpam :: jsvalue
  confidence :: jsvalue
  reason :: jsvalue

section \<open>Pattern rule engine\<close>

definition spamGroupKeywords :: "string list" where
  "spamGroupKeywords =
    [''trading'', ''forex'', ''fx signal'', ''trade signal'', ''pip'', ''lot size'',
     ''forex vip'', ''trading vip'', ''profit signal'', ''free signal'',
     ''crypto'', ''bitcoin'', ''btc'', ''eth'', ''binance'', ''coinbase'', ''nft'',
     ''token'', ''airdrop'', ''pump'', ''moonshot'', ''100x'', ''1000x'',
     ''crypto vip'', ''bitcoin signal'', ''crypto signal'',
     ''investment'', ''invest now'', ''guaranteed profit'', ''daily profit'',
     ''passive income'', ''financial freedom'', ''get rich'', ''make money'',
     ''earn money'', ''income opportunity'', ''profit guaranteed'',
     ''training'', ''course'', ''masterclass'', ''webinar'', ''free class'',
     ''learn trading'', ''trading course'', ''forex course'', ''crypto course'',
     ''mentorship'', ''coaching'', ''academy'',
     ''mlm'', ''network marketing'', ''referral bonus'', ''join my team'',
     ''business opportunity'', ''work from home'', ''be your own boss'',
     ''betting'', ''casino'', ''gambling'', ''slot'', ''jackpot'', ''lucky draw'',
     ''dating'', ''singles'', ''hookup'', ''adult'', ''18+'']"

definition highConfidenceSpam :: "string list" where
  "highConfidenceSpam =
    [''join my trading group'',
     ''join my crypto group'',
     ''join my forex group'',
     ''vip signal group'',
     ''free trading signals'',
     ''guaranteed returns'',
     ''double your money'',
     ''100% profit'',
     ''join and earn'',
     ''click link to join'']"

text \<open>
  The invite-link matcher is the regular expression
  \<^verbatim>\<open>/chat\.whatsapp\.com\/[A-Za-z0-9]{20,}/gi\<close>, tested from index 0 (the source resets
  \<open>lastIndex\<close> after every test). Under the flag \<open>i\<close> a letter of the pattern matches
  both of its cases; the class matches the ASCII letters and digits. No code unit from
  128 to 255 matches a character of the pattern, and none has a small letter in ASCII.
  A match exists at a position iff the literal matches there and at least 20 characters
  of the class follow.
\<close>

definition isAlnum :: "char \<Rightarrow> bool" where
  "isAlnum c =
     (let n = (of_char c :: nat)
      in (48 \<le> n \<and> n \<le> 57) \<or> (65 \<le> n \<and> n \<le> 90) \<or> (97 \<le> n \<and> n \<le> 122))"

fun matchLiteralCI :: "string \<Rightarrow> string \<Rightarrow> string option" where
  "matchLiteralCI [] s = Some s"
| "matchLiteralCI (p # ps) [] = None"
| "matchLiteralCI (p # ps) (c # cs) =
     (if lowerChar c = lowerChar p then matchLiteralCI ps cs else None)"

definition groupInviteAt :: "string \<Rightarrow> bool" where
  "groupInviteAt s =
     (case matchLiteralCI ''chat.whatsapp.com/'' s of
        None \<Rightarrow> False
      | Some rest \<Rightarrow> 20 \<le> length (takeWhile isAlnum rest))"

fun groupInviteRegex_test :: "string \<Rightarrow> bool" where
  "groupInviteRegex_test [] = groupInviteAt []"
| "groupInviteRegex_test (c # cs) = (groupInviteAt (c # cs) \<or> groupInviteRegex_test cs)"

definition matchedKeywords :: "string \<Rightarrow> string list" where
  "matchedKeywords lowerMessage =
     filter (\<lambda>keyword. includesStr lowerMessage (toLowerCase keyword)) spamGroupKeywords"

definition detectSpamGroupInvite :: "string \<Rightarrow> verdict" where
  "detectSpamGroupInvite message =
     (let lowerMessage = toLowerCase message;
          hasGroupInvite = groupInviteRegex_test message
      in case find (\<lambda>phrase. includesStr lowerMessage phrase) highConfidenceSpam of
           Some phrase \<Rightarrow>
             \<lparr>isSpam = JBool True, confidence = JNum (Finite 95),
              reason = JStr (''High-confidence spam phrase: \"'' @ phrase @ ''\"'')\<rparr>
         | None \<Rightarrow>
             if hasGroupInvite \<and> 2 \<le> length (matchedKeywords lowerMessage) then
               \<lparr>isSpam = JBool True, confidence = JNum (Finite 90),
                reason = JStr (''Group invite with spam keywords: '' @
                               join '', '' (take 3 (matchedKeywords lowerMessage)))\<rparr>
             else if hasGroupInvite \<and> length (matchedKeywords lowerMessage) = 1 then
               \<lparr>isSpam = JBool True, confidence = JNum (Finite 75),
                reason = JStr (''Group invite with suspicious keyword: '' @
                               hd (matchedKeywords lowerMessage))\<rparr>
             else if 3 \<le> length (matchedKeywords lowerMessage) then
               \<lparr>isSpam = JBool True, confidence = JNum (Finite 80),
                reason = JStr (''Multiple spam indicators: '' @
                               join '', '' (take 3 (matchedKeywords lowerMessage)))\<rparr>
             else
               \<lparr>isSpam = JBool False, confidence = JNum (Finite 0),
                reason = JStr ''No spam patterns detected''\<rparr>)"

section \<open>Configuration and environment\<close>

datatype provider = Anthropic | Gemini

record config =
  monitoredGroups :: "string list"
  aiProvider :: "provider option"
  dryRun :: bool
  customSpamKeywords :: "string list"
  useAI :: bool

text \<open>
  A call of the external classifier either throws or returns the trimmed text of the
  reply. A client is \<open>None\<close> where the source holds \<open>null\<close>; otherwise it is the
  function from message, sender name and group name to what the call does.
\<close>

datatype ai_outcome = Throws | Returns string

type_synonym ai_client = "string \<Rightarrow> string \<Rightarrow> string \<Rightarrow> ai_outcome"

text \<open>
  Two operations of the runtime are parameters of the model: \<open>JSON_parse\<close> (\<open>None\<close>
  where \<open>JSON.parse\<close> throws) and \<open>ToNumber\<close>, the numeric conversion of strings, arrays
  and objects (\<open>None\<close> where the conversion throws). \<open>botNumber\<close> is
  \<open>client.info.wid._serialized\<close>, \<open>None\<close> where reading it throws.
\<close>

record env =
  CONFIG :: config
  anthropic :: "ai_client option"
  gemini :: "ai_client option"
  JSON_parse :: "string \<Rightarrow> jsvalue option"
  ToNumber :: "jsvalue \<Rightarrow> jsnumber option"
  botNumber :: "string option"

section \<open>Operations of the host language\<close>

text \<open>\<open>numberGE x k\<close> is \<open>x >= k\<close> for a number \<open>x\<close> and a finite \<open>k\<close>.\<close>

fun numberGE :: "jsnumber \<Rightarrow> real \<Rightarrow> bool" where
  "numberGE NaN k = False"
| "numberGE (Finite r) k = (k \<le> r)"
| "numberGE PosInfinity k = True"
| "numberGE NegInfinity k = False"

fun toNumber :: "(jsvalue \<Rightarrow> jsnumber option) \<Rightarrow> jsvalue \<Rightarrow> jsnumber option" where
  "toNumber f JUndefined = Some NaN"
| "toNumber f JNull = Some (Finite 0)"
| "toNumber f (JBool b) = Some (Finite (if b then 1 else 0))"
| "toNumber f (JNum n) = Some n"
| "toNumber f (JStr s) = f (JStr s)"
| "toNumber f (JArr xs) = f (JArr xs)"
| "toNumber f (JObj kvs) = f (JObj kvs)"

text \<open>\<open>greaterEq f v k\<close> is \<open>v >= k\<close> for any value \<open>v\<close>; \<open>None\<close> where it throws.\<close>

definition greaterEq :: "(jsvalue \<Rightarrow> jsnumber option) \<Rightarrow> jsvalue \<Rightarrow> real \<Rightarrow> bool option" where
  "greaterEq f v k = (case toNumber f v of None \<Rightarrow> None | Some n \<Rightarrow> Some (numberGE n k))"

text \<open>
  \<open>getProp v k\<close> reads the property \<open>k\<close> of \<open>v\<close>, for a name \<open>k\<close> that no prototype
  defines (\<open>isSpam\<close>, \<open>confidence\<close>, \<open>reason\<close>): \<open>None\<close> is the TypeError of reading
  a property of \<open>null\<close> or \<open>undefined\<close>.
\<close>

fun getProp :: "jsvalue \<Rightarrow> string \<Rightarrow> jsvalue option" where
  "getProp JUndefined k = None"
| "getProp JNull k = None"
| "getProp (JObj kvs) k = Some (case map_of kvs k of None \<Rightarrow> JUndefined | Some v \<Rightarrow> v)"
| "getProp (JBool b) k = Some JUndefined"
| "getProp (JNum n) k = Some JUndefined"
| "getProp (JStr s) k = Some JUndefined"
| "getProp (JArr xs) k = Some JUndefined"

section \<open>External classifier\<close>

text \<open>
  \<open>jsonMatch content\<close> is \<^verbatim>\<open>content.match(/\{[\s\S]*\}/)\<close>: the star is greedy, so the
  match runs from the first opening brace to the last closing brace after it.
\<close>

definition jsonMatch :: "string \<Rightarrow> string option" where
  "jsonMatch content =
     (case dropWhile (\<lambda>c. c \<noteq> CHR ''{'') content of
        [] \<Rightarrow> None
      | b # rest \<Rightarrow>
          if CHR ''}'' \<in> set rest
          then Some (b # rev (dropWhile (\<lambda>c. c \<noteq> CHR ''}'') (rev rest)))
          else None)"

definition parseError :: verdict where
  "parseError = \<lparr>isSpam = JBool False, confidence = JNum (Finite 0), reason = JStr ''Parse error''\<rparr>"

definition apiError :: verdict where
  "apiError = \<lparr>isSpam = JBool False, confidence = JNum (Finite 0), reason = JStr ''API error''\<rparr>"

definition rateLimited :: verdict where
  "rateLimited = \<lparr>isSpam = JBool False, confidence = JNum (Finite 0),
                  reason = JStr ''Rate limited - using rule-based only''\<rparr>"

text \<open>
  The verdict built from the parsed reply \<open>result\<close>:
  \<^verbatim>\<open>{isSpam: result.isSpam && result.confidence >= 70, reason: result.reason,
    confidence: result.confidence}\<close>; \<open>None\<close> where building it throws.
\<close>

definition verdictOfResult :: "(jsvalue \<Rightarrow> jsnumber option) \<Rightarrow> jsvalue \<Rightarrow> verdict option" where
  "verdictOfResult f result =
     (case (getProp result ''isSpam'', getProp result ''reason'', getProp result ''confidence'') of
        (Some sp, Some rs, Some cf) \<Rightarrow>
          if truthy sp then
            (case greaterEq f cf 70 of
               None \<Rightarrow> None
             | Some b \<Rightarrow> Some \<lparr>isSpam = JBool b, confidence = cf, reason = rs\<rparr>)
          else Some \<lparr>isSpam = sp, confidence = cf, reason = rs\<rparr>
      | _ \<Rightarrow> None)"

definition parseResponse :: "env \<Rightarrow> string \<Rightarrow> verdict" where
  "parseResponse e content =
     (case jsonMatch content of
        None \<Rightarrow> parseError
      | Some j \<Rightarrow>
          (case JSON_parse e j of
             None \<Rightarrow> parseError
           | Some result \<Rightarrow>
               (case verdictOfResult (ToNumber e) result of
                  None \<Rightarrow> parseError
                | Some v \<Rightarrow> v)))"

text \<open>The client that the configured provider selects, if there is one.\<close>

definition selectClient :: "env \<Rightarrow> ai_client option" where
  "selectClient e =
     (if aiProvider (CONFIG e) = Some Anthropic \<and> anthropic e \<noteq> None then anthropic e
      else if aiProvider (CONFIG e) = Some Gemini \<and> gemini e \<noteq> None then gemini e
      else None)"

text \<open>The \<open>try\<close> block of \<open>isSpamMessage\<close>, entered once the rate gate has admitted the call.\<close>

definition aiDetection :: "env \<Rightarrow> verdict \<Rightarrow> string \<Rightarrow> string \<Rightarrow> string \<Rightarrow> verdict" where
  "aiDetection e ruleBasedResult message senderName groupName =
     (case selectClient e of
        None \<Rightarrow> ruleBasedResult
      | Some call \<Rightarrow>
          (case call message senderName groupName of
             Throws \<Rightarrow> apiError
           | Returns content \<Rightarrow> parseResponse e content))"

section \<open>Rate admission gate\<close>

definition MAX_CHECKS_PER_MINUTE :: nat where
  "MAX_CHECKS_PER_MINUTE = 30"

text \<open>
  The gate of \<open>isSpamMessage\<close> on the counter \<open>checksThisMinute\<close>: denied, with the
  counter as it was, once the counter has reached the ceiling; admitted, with the counter
  incremented, otherwise.
\<close>

definition rateGate :: "nat \<Rightarrow> bool \<times> nat" where
  "rateGate checksThisMinute =
     (if MAX_CHECKS_PER_MINUTE \<le> checksThisMinute then (False, checksThisMinute)
      else (True, checksThisMinute + 1))"

text \<open>The callback of the interval timer.\<close>

definition resetRateLimit :: "nat \<Rightarrow> nat" where
  "resetRateLimit checksThisMinute = 0"

text \<open>
  A run of the gate over the events of a window: \<open>Check\<close> is a call arriving at the
  gate, \<open>Tick\<close> the timer firing. The run returns the gate's answers in order and the
  counter at the end.
\<close>

datatype gate_event = Check | Tick

fun runGate :: "gate_event list \<Rightarrow> nat \<Rightarrow> bool list \<times> nat" where
  "runGate [] c = ([], c)"
| "runGate (Check # evs) c =
     (case rateGate c of (ok, c') \<Rightarrow> (case runGate evs c' of (oks, c'') \<Rightarrow> (ok # oks, c'')))"
| "runGate (Tick # evs) c = runGate evs (resetRateLimit c)"

section \<open>Decision orchestrator\<close>

definition isSpamMessage :: "env \<Rightarrow> nat \<Rightarrow> string \<Rightarrow> string \<Rightarrow> string \<Rightarrow> verdict \<times> nat" where
  "isSpamMessage e checksThisMinute message senderName groupName =
     (let lowerMessage = toLowerCase message
      in case find (\<lambda>keyword. includesStr lowerMessage (toLowerCase keyword))
                   (customSpamKeywords (CONFIG e)) of
           Some keyword \<Rightarrow>
             (\<lparr>isSpam = JBool True, confidence = JNum (Finite 100),
               reason = JStr (''Contains blocked keyword: '' @ keyword)\<rparr>, checksThisMinute)
         | None \<Rightarrow>
             let ruleBasedResult = detectSpamGroupInvite message
             in if truthy (isSpam ruleBasedResult) then (ruleBasedResult, checksThisMinute)
                else if \<not> useAI (CONFIG e) \<or> (anthropic e = None \<and> gemini e = None)
                then (ruleBasedResult, checksThisMinute)
                else (case rateGate checksThisMinute of
                        (False, c') \<Rightarrow> (rateLimited, c')
                      | (True, c') \<Rightarrow>
                          (aiDetection e ruleBasedResult message senderName groupName, c')))"

section \<open>Message handler\<close>

record participant =
  pid :: string
  isAdmin :: bool
  isSuperAdmin :: bool

record chat =
  isGroup :: bool
  chatId :: string
  chatName :: string
  participants :: "participant list option"

text \<open>
  \<open>getChat\<close> is \<open>None\<close> where the call throws; \<open>body\<close>, \<open>author\<close>, \<open>sender\<close> (the
  field \<open>from\<close>) and \<open>notifyName\<close> are \<open>None\<close> where the field is undefined.
\<close>

record message =
  getChat :: "chat option"
  fromMe :: bool
  body :: "string option"
  author :: "string option"
  sender :: "string option"
  notifyName :: "string option"

definition isBotAdmin :: "env \<Rightarrow> chat \<Rightarrow> bool" where
  "isBotAdmin e ch =
     (case participants ch of
        None \<Rightarrow> False
      | Some ps \<Rightarrow>
          (case botNumber e of
             None \<Rightarrow> False
           | Some bn \<Rightarrow>
               (case find (\<lambda>p. pid p = bn) ps of
                  None \<Rightarrow> False
                | Some p \<Rightarrow> isAdmin p \<or> isSuperAdmin p)))"

text \<open>\<open>orElse a b\<close> is \<open>a || b\<close> on strings that may be undefined.\<close>

fun orElse :: "string option \<Rightarrow> string option \<Rightarrow> string option" where
  "orElse None b = b"
| "orElse (Some s) b = (if s = [] then b else Some s)"

definition senderNameOf :: "message \<Rightarrow> string" where
  "senderNameOf m =
     (let senderId = orElse (author m) (sender m)
      in case orElse (orElse (notifyName m)
                        (map_option (takeWhile (\<lambda>c. c \<noteq> CHR ''@'')) senderId))
                     (Some ''Unknown'') of
           None \<Rightarrow> []
         | Some s \<Rightarrow> s)"

text \<open>
  \<open>trim\<close> is \<open>String.prototype.trim\<close>: it removes the white space and the line
  terminators at both ends. Below 256 these are tab, line feed, vertical tab, form feed,
  carriage return, space and the no-break space (160).
\<close>

definition isSpace :: "char \<Rightarrow> bool" where
  "isSpace c = ((of_char c :: nat) \<in> {9, 10, 11, 12, 13, 32, 160})"

definition trim :: "string \<Rightarrow> string" where
  "trim s = rev (dropWhile isSpace (rev (dropWhile isSpace s)))"

datatype action = DeleteForEveryone

text \<open>
  \<open>handleMessage\<close> returns the actions it requests of the messaging client, with the
  counter of the rate gate after the message.
\<close>

definition handleMessage :: "env \<Rightarrow> nat \<Rightarrow> message \<Rightarrow> action list \<times> nat" where
  "handleMessage e checksThisMinute m =
     (case getChat m of
        None \<Rightarrow> ([], checksThisMinute)
      | Some ch \<Rightarrow>
          if \<not> isGroup ch then ([], checksThisMinute)
          else if monitoredGroups (CONFIG e) \<noteq> [] \<and> chatId ch \<notin> set (monitoredGroups (CONFIG e))
          then ([], checksThisMinute)
          else if fromMe m then ([], checksThisMinute)
          else (case body m of
                  None \<Rightarrow> ([], checksThisMinute)
                | Some b \<Rightarrow>
                    if b = [] \<or> trim b = [] then ([], checksThisMinute)
                    else (case isSpamMessage e checksThisMinute b (senderNameOf m) (chatName ch) of
                            (spamCheck, c') \<Rightarrow>
                              if truthy (isSpam spamCheck) then
                                if \<not> isBotAdmin e ch then ([], c')
                                else if dryRun (CONFIG e) then ([], c')
                                else ([DeleteForEveryone], c')
                              else ([], c'))))"

section \<open>Paths through the orchestrator\<close>

text \<open>
  The conditions under which \<open>isSpamMessage\<close> arrives at the rate gate: no custom
  keyword matched, the rule engine did not flag the message, and the external classifier
  is enabled and has a client.
\<close>

definition reachesGate :: "env \<Rightarrow> string \<Rightarrow> bool" where
  "reachesGate e message =
     (find (\<lambda>keyword. includesStr (toLowerCase message) (toLowerCase keyword))
           (customSpamKeywords (CONFIG e)) = None
      \<and> \<not> truthy (isSpam (detectSpamGroupInvite message))
      \<and> useAI (CONFIG e)
      \<and> \<not> (anthropic e = None \<and> gemini e = None))"

text \<open>A value that is an integer from 0 to 100.\<close>

fun integerIn0to100 :: "jsvalue \<Rightarrow> bool" where
  "integerIn0to100 (JNum (Finite r)) = (0 \<le> r \<and> r \<le> 100 \<and> of_int \<lfloor>r\<rfloor> = r)"
| "integerIn0to100 v = False"

section \<open>Vocabulary terms of a text\<close>

text \<open>
  The vocabulary terms that occur in a text, case-insensitively, as a set: each term
  counts once however often it occurs.
\<close>

definition matchedTerms :: "string \<Rightarrow> string set" where
  "matchedTerms text = {k \<in> set spamGroupKeywords. includesStr (toLowerCase text) k}"

section \<open>Sample inputs\<close>

definition sampleConfig :: config where
  "sampleConfig =
     \<lparr>monitoredGroups = [], aiProvider = Some Anthropic, dryRun = False,
      customSpamKeywords = [''lottery'', ''Free Money''], useAI = True\<rparr>"

text \<open>
  What \<open>JSON.parse\<close> returns on the replies used below: the object for each of the
  six well-formed texts, and a failure for \<open>{isSpam: maybe}\<close>, whose key is not quoted.
\<close>

definition sampleParse :: "string \<Rightarrow> jsvalue option" where
  "sampleParse =
     map_of
       [(''{\"isSpam\": true, \"confidence\": 150, \"reason\": \"scam\"}'',
         JObj [(''isSpam'', JBool True), (''confidence'', JNum (Finite 150)),
               (''reason'', JStr ''scam'')]),
        (''{\"isSpam\": true, \"confidence\": 65, \"reason\": \"promo\"}'',
         JObj [(''isSpam'', JBool True), (''confidence'', JNum (Finite 65)),
               (''reason'', JStr ''promo'')]),
        (''{\"isSpam\": true, \"confidence\": 70, \"reason\": \"promo\"}'',
         JObj [(''isSpam'', JBool True), (''confidence'', JNum (Finite 70)),
               (''reason'', JStr ''promo'')]),
        (''{\"isSpam\": 1, \"confidence\": 80}'',
         JObj [(''isSpam'', JNum (Finite 1)), (''confidence'', JNum (Finite 80))]),
        (''{\"isSpam\": \"false\", \"confidence\": 80}'',
         JObj [(''isSpam'', JStr ''false''), (''confidence'', JNum (Finite 80))]),
        (''{\"isSpam\": null, \"confidence\": 65}'',
         JObj [(''isSpam'', JNull), (''confidence'', JNum (Finite 65))])]"

text \<open>
  No reply used below holds a string, an array or an object as its confidence, so the
  numeric conversion of such values is never consulted; it is the constant NaN here.
\<close>

definition sampleToNumber :: "jsvalue \<Rightarrow> jsnumber option" where
  "sampleToNumber v = Some NaN"

text \<open>An environment whose one client, the configured one, always does \<open>out\<close>.\<close>

definition envWith :: "ai_outcome \<Rightarrow> env" where
  "envWith out =
     \<lparr>CONFIG = sampleConfig, anthropic = Some (\<lambda>message senderName groupName. out),
      gemini = None, JSON_parse = sampleParse, ToNumber = sampleToNumber,
      botNumber = Some ''4915100000@c.us''\<rparr>"

text \<open>
  An environment with the custom keywords \<open>kws\<close> and no external classifier. The texts
  \<open>cafe_small\<close> and \<open>cafe_capital\<close> end in the letter e with acute accent, small (233)
  and capital (201).
\<close>

definition envKeywords :: "string list \<Rightarrow> env" where
  "envKeywords kws =
     \<lparr>CONFIG = \<lparr>monitoredGroups = [], aiProvider = None, dryRun = False,
                customSpamKeywords = kws, useAI = False\<rparr>,
      anthropic = None, gemini = None, JSON_parse = sampleParse, ToNumber = sampleToNumber,
      botNumber = Some ''4915100000@c.us''\<rparr>"

definition cafe_small :: string where
  "cafe_small = ''caf'' @ [CHR 0xE9]"

definition cafe_capital :: string where
  "cafe_capital = ''CAF'' @ [CHR 0xC9]"

definition sampleChat :: "bool \<Rightarrow> chat" where
  "sampleChat admin =
     \<lparr>isGroup = True, chatId = ''120363000@g.us'', chatName = ''Neighbours'',
      participants = Some [\<lparr>pid = ''4915111111@c.us'', isAdmin = True, isSuperAdmin = True\<rparr>,
                           \<lparr>pid = ''4915100000@c.us'', isAdmin = admin, isSuperAdmin = False\<rparr>]\<rparr>"

definition sampleMessage :: "bool \<Rightarrow> string \<Rightarrow> message" where
  "sampleMessage admin text =
     \<lparr>getChat = Some (sampleChat admin), fromMe = False, body = Some text,
      author = Some ''4915122222@c.us'', sender = Some ''120363000@g.us'', notifyName = None\<rparr>"

section \<open>Substrings and first matches\<close>

lemma startsWith_iff: "startsWith s p \<longleftrightarrow> (\<exists>b. s = p @ b)"
  by (induction s p rule: startsWith.induct) auto

lemma includesStr_iff: "includesStr s p \<longleftrightarrow> (\<exists>a b. s = a @ p @ b)"
proof (induction s)
  case Nil
  show ?case by auto
next
  case (Cons c cs)
  have "(\<exists>a b. c # cs = a @ p @ b) \<longleftrightarrow> (\<exists>b. c # cs = p @ b) \<or> (\<exists>a b. cs = a @ p @ b)"
  proof
    assume "\<exists>a b. c # cs = a @ p @ b"
    then obtain a b where ab: "c # cs = a @ p @ b" by blast
    show "(\<exists>b. c # cs = p @ b) \<or> (\<exists>a b. cs = a @ p @ b)"
    proof (cases a)
      case Nil
      with ab show ?thesis by auto
    next
      case (Cons x a')
      with ab have "cs = a' @ p @ b" by simp
      then show ?thesis by blast
    qed
  next
    assume "(\<exists>b. c # cs = p @ b) \<or> (\<exists>a b. cs = a @ p @ b)"
    then show "\<exists>a b. c # cs = a @ p @ b"
    proof
      assume "\<exists>b. c # cs = p @ b"
      then obtain b where "c # cs = [] @ p @ b" by auto
      then show ?thesis by blast
    next
      assume "\<exists>a b. cs = a @ p @ b"
      then obtain a b where "c # cs = (c # a) @ p @ b" by auto
      then show ?thesis by blast
    qed
  qed
  with Cons show ?case by (simp add: startsWith_iff)
qed

lemma find_first:
  "find P xs = Some x \<Longrightarrow> \<exists>pre post. xs = pre @ x # post \<and> P x \<and> (\<forall>y \<in> set pre. \<not> P y)"
proof (induction xs)
  case Nil
  then show ?case by simp
next
  case (Cons a xs)
  show ?case
  proof (cases "P a")
    case True
    with Cons.prems have "a = x" by simp
    with True have "a # xs = [] @ x # xs \<and> P x \<and> (\<forall>y \<in> set []. \<not> P y)" by simp
    then show ?thesis by blast
  next
    case False
    with Cons.prems have "find P xs = Some x" by simp
    from Cons.IH [OF this] obtain pre post
      where "xs = pre @ x # post" "P x" "\<forall>y \<in> set pre. \<not> P y" by blast
    with False have "a # xs = (a # pre) @ x # post \<and> P x \<and> (\<forall>y \<in> set (a # pre). \<not> P y)"
      by simp
    then show ?thesis by blast
  qed
qed

lemma find_exists: "\<exists>x \<in> set xs. P x \<Longrightarrow> \<exists>y. find P xs = Some y"
  by (cases "find P xs") (auto simp: find_None_iff)

lemma distinct_spamGroupKeywords: "distinct spamGroupKeywords"
  by (simp add: spamGroupKeywords_def)

lemma vocabulary_lower_all: "list_all (\<lambda>k. toLowerCase k = k) spamGroupKeywords"
  by code_simp

lemma vocabulary_lower: "k \<in> set spamGroupKeywords \<Longrightarrow> toLowerCase k = k"
  using vocabulary_lower_all by (simp add: list_all_iff)

lemma matchedKeywords_eq:
  "matchedKeywords lm = filter (\<lambda>k. includesStr lm k) spamGroupKeywords"
  unfolding matchedKeywords_def by (rule filter_cong) (simp_all add: vocabulary_lower)

lemma length_matchedKeywords:
  "length (matchedKeywords lm) = card {k \<in> set spamGroupKeywords. includesStr lm k}"
proof -
  have "distinct (matchedKeywords lm)"
    by (simp add: matchedKeywords_eq distinct_spamGroupKeywords)
  then have "length (matchedKeywords lm) = card (set (matchedKeywords lm))"
    by (simp add: distinct_card)
  also have "set (matchedKeywords lm) = {k \<in> set spamGroupKeywords. includesStr lm k}"
    by (simp add: matchedKeywords_eq)
  finally show ?thesis .
qed


lemma find_first_ex:
  assumes "x \<in> set xs" and "P x"
  shows "\<exists>pre y post. find P xs = Some y \<and> xs = pre @ y # post \<and> P y \<and> (\<forall>z \<in> set pre. \<not> P z)"
proof -
  from assms have "find P xs \<noteq> None" by (auto simp: find_None_iff)
  then obtain y where y: "find P xs = Some y" by auto
  from find_first [OF y] y show ?thesis by auto
qed

section \<open>Properties of the rule engine and of the keyword matcher\<close>

lemma find_phrase_None:
  "find P xs = None \<longleftrightarrow> (\<forall>x \<in> set xs. \<not> P x)"
  by (auto simp: find_None_iff)

text \<open>
  C10. For every text the rule engine returns one of the confidences 0, 75, 80, 90 and
  95, and \<open>isSpam\<close> is \<open>true\<close> exactly when the confidence is above 0; otherwise it is
  \<open>false\<close>, with confidence 0.
\<close>

theorem pattern_rule_confidence_values:
  "\<exists>n. n \<in> {0, 75, 80, 90, 95}
      \<and> confidence (detectSpamGroupInvite text) = JNum (Finite n)
      \<and> isSpam (detectSpamGroupInvite text) = JBool (0 < n)"
  by (simp add: detectSpamGroupInvite_def Let_def split: option.split)

text \<open>
  C3. A text whose lowercased form contains a high-confidence phrase gets
  \<open>isSpam = true\<close> with confidence 95 from the rule engine, citing the first such phrase
  of the list, whatever invite link or vocabulary terms it holds; and where no custom
  keyword matches, the orchestrator returns that verdict with the counter of the rate
  gate untouched, whatever the environment's classifier would do.
\<close>

theorem high_confidence_phrase_priority:
  assumes "p \<in> set highConfidenceSpam"
    and "includesStr (toLowerCase text) p"
  shows "\<exists>pre q post.
           highConfidenceSpam = pre @ q # post
         \<and> includesStr (toLowerCase text) q
         \<and> (\<forall>r \<in> set pre. \<not> includesStr (toLowerCase text) r)
         \<and> detectSpamGroupInvite text =
             \<lparr>isSpam = JBool True, confidence = JNum (Finite 95),
              reason = JStr (''High-confidence spam phrase: \"'' @ q @ ''\"'')\<rparr>
         \<and> (find (\<lambda>k. includesStr (toLowerCase text) (toLowerCase k))
                  (customSpamKeywords (CONFIG e)) = None
              \<longrightarrow> isSpamMessage e c text s g = (detectSpamGroupInvite text, c))"
proof -
  let ?P = "\<lambda>phrase. includesStr (toLowerCase text) phrase"
  from find_first_ex [of p highConfidenceSpam ?P, OF assms]
  obtain pre q post where
    q: "find ?P highConfidenceSpam = Some q" and
    split: "highConfidenceSpam = pre @ q # post" "?P q" "\<forall>r \<in> set pre. \<not> ?P r"
    by auto
  have v: "detectSpamGroupInvite text =
             \<lparr>isSpam = JBool True, confidence = JNum (Finite 95),
              reason = JStr (''High-confidence spam phrase: \"'' @ q @ ''\"'')\<rparr>"
    using q by (simp add: detectSpamGroupInvite_def)
  have o: "find (\<lambda>k. includesStr (toLowerCase text) (toLowerCase k))
             (customSpamKeywords (CONFIG e)) = None
        \<longrightarrow> isSpamMessage e c text s g = (detectSpamGroupInvite text, c)"
    using v by (simp add: isSpamMessage_def)
  show ?thesis using split v o
    by (intro exI [of _ pre] exI [of _ q] exI [of _ post] conjI)
qed

theorem high_confidence_phrase_priority_witness:
  "''join my crypto group'' \<in> set highConfidenceSpam
   \<and> includesStr
       (toLowerCase ''JOIN MY CRYPTO GROUP chat.whatsapp.com/AbCdEfGhIj1234567890 forex bitcoin'')
       ''join my crypto group''
   \<and> detectSpamGroupInvite
       ''JOIN MY CRYPTO GROUP chat.whatsapp.com/AbCdEfGhIj1234567890 forex bitcoin'' =
       \<lparr>isSpam = JBool True, confidence = JNum (Finite 95),
        reason = JStr ''High-confidence spam phrase: \"join my crypto group\"''\<rparr>
   \<and> isSpamMessage (envWith Throws) 30
       ''JOIN MY CRYPTO GROUP chat.whatsapp.com/AbCdEfGhIj1234567890 forex bitcoin''
       ''Eve'' ''Neighbours'' =
       (detectSpamGroupInvite
          ''JOIN MY CRYPTO GROUP chat.whatsapp.com/AbCdEfGhIj1234567890 forex bitcoin'', 30)"
proof -
  let ?t = "''JOIN MY CRYPTO GROUP chat.whatsapp.com/AbCdEfGhIj1234567890 forex bitcoin''"
  have h1: "''join my crypto group'' \<in> set highConfidenceSpam"
    by (simp add: highConfidenceSpam_def)
  have h2: "includesStr (toLowerCase ?t) ''join my crypto group''"
    by code_simp
  have h3: "find (\<lambda>k. includesStr (toLowerCase ?t) (toLowerCase k))
              (customSpamKeywords (CONFIG (envWith Throws))) = None"
    by code_simp
  have v: "detectSpamGroupInvite ?t =
       \<lparr>isSpam = JBool True, confidence = JNum (Finite 95),
        reason = JStr ''High-confidence spam phrase: \"join my crypto group\"''\<rparr>"
    by code_simp
  from high_confidence_phrase_priority [OF h1 h2, of "envWith Throws" 30 "''Eve''" "''Neighbours''"]
  have "find (\<lambda>k. includesStr (toLowerCase ?t) (toLowerCase k))
              (customSpamKeywords (CONFIG (envWith Throws))) = None
        \<longrightarrow> isSpamMessage (envWith Throws) 30 ?t ''Eve'' ''Neighbours'' =
              (detectSpamGroupInvite ?t, 30)"
    by (elim exE conjE)
  with h3 have o: "isSpamMessage (envWith Throws) 30 ?t ''Eve'' ''Neighbours'' =
                     (detectSpamGroupInvite ?t, 30)"
    by (rule_tac mp)
  show ?thesis using h1 h2 v o by (intro conjI)
qed

text \<open>
  C1. Where the lowercased message contains the lowercased form of some configured
  custom keyword, the orchestrator returns \<open>isSpam = true\<close> with confidence 100 and a
  reason citing the first keyword of the list that matches, for every environment, counter
  and other content of the message; the counter of the rate gate is left as it was.
\<close>

theorem custom_keyword_first_match:
  assumes "k \<in> set (customSpamKeywords (CONFIG e))"
    and "includesStr (toLowerCase message) (toLowerCase k)"
  shows "\<exists>pre kw post.
           customSpamKeywords (CONFIG e) = pre @ kw # post
         \<and> includesStr (toLowerCase message) (toLowerCase kw)
         \<and> (\<forall>k' \<in> set pre. \<not> includesStr (toLowerCase message) (toLowerCase k'))
         \<and> isSpamMessage e c message s g =
             (\<lparr>isSpam = JBool True, confidence = JNum (Finite 100),
               reason = JStr (''Contains blocked keyword: '' @ kw)\<rparr>, c)"
proof -
  let ?P = "\<lambda>keyword. includesStr (toLowerCase message) (toLowerCase keyword)"
  from find_first_ex [of k "customSpamKeywords (CONFIG e)" ?P, OF assms]
  obtain pre kw post where
    kw: "find ?P (customSpamKeywords (CONFIG e)) = Some kw" and
    split: "customSpamKeywords (CONFIG e) = pre @ kw # post" "?P kw"
           "\<forall>k' \<in> set pre. \<not> ?P k'"
    by auto
  have v: "isSpamMessage e c message s g =
          (\<lparr>isSpam = JBool True, confidence = JNum (Finite 100),
            reason = JStr (''Contains blocked keyword: '' @ kw)\<rparr>, c)"
    using kw by (simp add: isSpamMessage_def)
  show ?thesis using split v
    by (intro exI [of _ pre] exI [of _ kw] exI [of _ post] conjI)
qed

theorem custom_keyword_first_match_witness:
  "''Free Money'' \<in> set (customSpamKeywords (CONFIG (envWith Throws)))
   \<and> includesStr (toLowerCase ''Join my trading group: FREE MONEY and a Lottery ticket'')
                 (toLowerCase ''Free Money'')
   \<and> (\<exists>pre kw post.
         customSpamKeywords (CONFIG (envWith Throws)) = pre @ kw # post
       \<and> includesStr (toLowerCase ''Join my trading group: FREE MONEY and a Lottery ticket'')
                     (toLowerCase kw)
       \<and> (\<forall>k' \<in> set pre.
            \<not> includesStr (toLowerCase ''Join my trading group: FREE MONEY and a Lottery ticket'')
                          (toLowerCase k'))
       \<and> isSpamMessage (envWith Throws) 7
            ''Join my trading group: FREE MONEY and a Lottery ticket'' ''Eve'' ''Neighbours'' =
           (\<lparr>isSpam = JBool True, confidence = JNum (Finite 100),
             reason = JStr (''Contains blocked keyword: '' @ kw)\<rparr>, 7))
   \<and> isSpamMessage (envWith Throws) 7
        ''Join my trading group: FREE MONEY and a Lottery ticket'' ''Eve'' ''Neighbours'' =
       (\<lparr>isSpam = JBool True, confidence = JNum (Finite 100),
         reason = JStr ''Contains blocked keyword: lottery''\<rparr>, 7)
   \<and> ''time'' \<in> set (customSpamKeywords (CONFIG (envKeywords [cafe_small, ''time''])))
   \<and> includesStr (toLowerCase (cafe_capital @ '' time'')) (toLowerCase ''time'')
   \<and> (\<exists>pre kw post.
         customSpamKeywords (CONFIG (envKeywords [cafe_small, ''time''])) = pre @ kw # post
       \<and> includesStr (toLowerCase (cafe_capital @ '' time'')) (toLowerCase kw)
       \<and> (\<forall>k' \<in> set pre.
            \<not> includesStr (toLowerCase (cafe_capital @ '' time'')) (toLowerCase k'))
       \<and> isSpamMessage (envKeywords [cafe_small, ''time'']) 7 (cafe_capital @ '' time'')
            ''Eve'' ''Neighbours'' =
           (\<lparr>isSpam = JBool True, confidence = JNum (Finite 100),
             reason = JStr (''Contains blocked keyword: '' @ kw)\<rparr>, 7))
   \<and> toLowerCase cafe_capital = cafe_small
   \<and> isSpamMessage (envKeywords [cafe_small, ''time'']) 7 (cafe_capital @ '' time'')
        ''Eve'' ''Neighbours'' =
       (\<lparr>isSpam = JBool True, confidence = JNum (Finite 100),
         reason = JStr (''Contains blocked keyword: '' @ cafe_small)\<rparr>, 7)"
proof -
  let ?t = "''Join my trading group: FREE MONEY and a Lottery ticket''"
  let ?u = "cafe_capital @ '' time''"
  let ?f = "envKeywords [cafe_small, ''time'']"
  have h1: "''Free Money'' \<in> set (customSpamKeywords (CONFIG (envWith Throws)))"
    by (simp add: envWith_def sampleConfig_def)
  have h2: "includesStr (toLowerCase ?t) (toLowerCase ''Free Money'')"
    by code_simp
  have v: "isSpamMessage (envWith Throws) 7 ?t ''Eve'' ''Neighbours'' =
       (\<lparr>isSpam = JBool True, confidence = JNum (Finite 100),
         reason = JStr ''Contains blocked keyword: lottery''\<rparr>, 7)"
    by code_simp
  have i1: "''time'' \<in> set (customSpamKeywords (CONFIG ?f))"
    by (simp add: envKeywords_def)
  have i2: "includesStr (toLowerCase ?u) (toLowerCase ''time'')"
    by code_simp
  have l: "toLowerCase cafe_capital = cafe_small" by code_simp
  have w: "isSpamMessage ?f 7 ?u ''Eve'' ''Neighbours'' =
       (\<lparr>isSpam = JBool True, confidence = JNum (Finite 100),
         reason = JStr (''Contains blocked keyword: '' @ cafe_small)\<rparr>, 7)"
    by code_simp
  note c = custom_keyword_first_match [OF h1 h2, of 7 "''Eve''" "''Neighbours''"]
  note d = custom_keyword_first_match [OF i1 i2, of 7 "''Eve''" "''Neighbours''"]
  show ?thesis using h1 h2 c v i1 i2 d l w by (intro conjI)
qed

lemma card_matchedTerms:
  "card (matchedTerms text) = length (matchedKeywords (toLowerCase text))"
  by (simp add: matchedTerms_def length_matchedKeywords)

lemma set_matchedKeywords:
  "set (matchedKeywords (toLowerCase text)) = matchedTerms text"
  by (simp add: matchedKeywords_eq matchedTerms_def)

lemma distinct_matchedKeywords: "distinct (matchedKeywords lm)"
  by (simp add: matchedKeywords_eq distinct_spamGroupKeywords)

lemma no_phrase_find:
  "\<not> (\<exists>p \<in> set highConfidenceSpam. includesStr lm p)
   \<Longrightarrow> find (\<lambda>phrase. includesStr lm phrase) highConfidenceSpam = None"
  by (simp add: find_None_iff)

text \<open>
  C2. For a text with no high-confidence phrase: with an invite link and at least 2
  distinct vocabulary terms the rule engine returns \<open>isSpam = true\<close>, confidence 90 and a
  reason listing the first (at most 3) matched terms; with an invite link and exactly 1
  term it returns \<open>isSpam = true\<close>, confidence 75, naming the term; with no invite link
  and at least 3 distinct terms it returns \<open>isSpam = true\<close>, confidence 80. The list of
  matched terms holds each vocabulary term that occurs in the text once.
\<close>

theorem invite_and_vocabulary_rules:
  assumes "\<not> (\<exists>p \<in> set highConfidenceSpam. includesStr (toLowerCase text) p)"
  shows "(groupInviteRegex_test text \<and> 2 \<le> card (matchedTerms text) \<longrightarrow>
            detectSpamGroupInvite text =
              \<lparr>isSpam = JBool True, confidence = JNum (Finite 90),
               reason = JStr (''Group invite with spam keywords: '' @
                              join '', '' (take 3 (matchedKeywords (toLowerCase text))))\<rparr>)
       \<and> (groupInviteRegex_test text \<and> card (matchedTerms text) = 1 \<longrightarrow>
            (\<exists>k. matchedTerms text = {k} \<and>
                 detectSpamGroupInvite text =
                   \<lparr>isSpam = JBool True, confidence = JNum (Finite 75),
                    reason = JStr (''Group invite with suspicious keyword: '' @ k)\<rparr>))
       \<and> (\<not> groupInviteRegex_test text \<and> 3 \<le> card (matchedTerms text) \<longrightarrow>
            detectSpamGroupInvite text =
              \<lparr>isSpam = JBool True, confidence = JNum (Finite 80),
               reason = JStr (''Multiple spam indicators: '' @
                              join '', '' (take 3 (matchedKeywords (toLowerCase text))))\<rparr>)
       \<and> set (matchedKeywords (toLowerCase text)) = matchedTerms text
       \<and> distinct (matchedKeywords (toLowerCase text))"
proof -
  let ?m = "matchedKeywords (toLowerCase text)"
  note none = no_phrase_find [OF assms]
  have c90: "groupInviteRegex_test text \<and> 2 \<le> card (matchedTerms text) \<longrightarrow>
            detectSpamGroupInvite text =
              \<lparr>isSpam = JBool True, confidence = JNum (Finite 90),
               reason = JStr (''Group invite with spam keywords: '' @ join '', '' (take 3 ?m))\<rparr>"
    using none by (simp add: detectSpamGroupInvite_def card_matchedTerms)
  have c75: "groupInviteRegex_test text \<and> card (matchedTerms text) = 1 \<longrightarrow>
            (\<exists>k. matchedTerms text = {k} \<and>
                 detectSpamGroupInvite text =
                   \<lparr>isSpam = JBool True, confidence = JNum (Finite 75),
                    reason = JStr (''Group invite with suspicious keyword: '' @ k)\<rparr>)"
  proof
    assume a: "groupInviteRegex_test text \<and> card (matchedTerms text) = 1"
    then have "length ?m = 1" by (simp add: card_matchedTerms)
    then obtain k where k: "?m = [k]" by (cases ?m) auto
    then have "set ?m = {k}" by simp
    then have s: "matchedTerms text = {k}" by (simp add: set_matchedKeywords)
    have "detectSpamGroupInvite text =
            \<lparr>isSpam = JBool True, confidence = JNum (Finite 75),
             reason = JStr (''Group invite with suspicious keyword: '' @ k)\<rparr>"
      using none a k by (simp add: detectSpamGroupInvite_def)
    with s show "\<exists>k. matchedTerms text = {k} \<and>
                 detectSpamGroupInvite text =
                   \<lparr>isSpam = JBool True, confidence = JNum (Finite 75),
                    reason = JStr (''Group invite with suspicious keyword: '' @ k)\<rparr>"
      by (intro exI [of _ k] conjI)
  qed
  have c80: "\<not> groupInviteRegex_test text \<and> 3 \<le> card (matchedTerms text) \<longrightarrow>
            detectSpamGroupInvite text =
              \<lparr>isSpam = JBool True, confidence = JNum (Finite 80),
               reason = JStr (''Multiple spam indicators: '' @ join '', '' (take 3 ?m))\<rparr>"
    using none by (simp add: detectSpamGroupInvite_def card_matchedTerms)
  show ?thesis
    using c90 c75 c80 set_matchedKeywords [of "text"]
      distinct_matchedKeywords [of "toLowerCase text"]
    by (intro conjI)
qed

theorem invite_and_vocabulary_rules_witness:
  "(\<not> (\<exists>p \<in> set highConfidenceSpam.
          includesStr (toLowerCase ''New group chat.whatsapp.com/AbCdEfGhIj1234567890 forex and bitcoin and casino nights and FOREX dating'') p)
    \<and> groupInviteRegex_test ''New group chat.whatsapp.com/AbCdEfGhIj1234567890 forex and bitcoin and casino nights and FOREX dating''
    \<and> card (matchedTerms ''New group chat.whatsapp.com/AbCdEfGhIj1234567890 forex and bitcoin and casino nights and FOREX dating'') = 4
    \<and> detectSpamGroupInvite ''New group chat.whatsapp.com/AbCdEfGhIj1234567890 forex and bitcoin and casino nights and FOREX dating'' =
        \<lparr>isSpam = JBool True, confidence = JNum (Finite 90),
         reason = JStr ''Group invite with spam keywords: forex, bitcoin, casino''\<rparr>)
   \<and> (\<not> (\<exists>p \<in> set highConfidenceSpam.
          includesStr (toLowerCase ''Our yoga Course: chat.whatsapp.com/AbCdEfGhIj1234567890'') p)
    \<and> groupInviteRegex_test ''Our yoga Course: chat.whatsapp.com/AbCdEfGhIj1234567890''
    \<and> card (matchedTerms ''Our yoga Course: chat.whatsapp.com/AbCdEfGhIj1234567890'') = 1
    \<and> (\<exists>k. matchedTerms ''Our yoga Course: chat.whatsapp.com/AbCdEfGhIj1234567890'' = {k} \<and>
            detectSpamGroupInvite ''Our yoga Course: chat.whatsapp.com/AbCdEfGhIj1234567890'' =
              \<lparr>isSpam = JBool True, confidence = JNum (Finite 75),
               reason = JStr (''Group invite with suspicious keyword: '' @ k)\<rparr>))
   \<and> (\<not> (\<exists>p \<in> set highConfidenceSpam.
          includesStr (toLowerCase ''forex, bitcoin and casino evenings'') p)
    \<and> \<not> groupInviteRegex_test ''forex, bitcoin and casino evenings''
    \<and> card (matchedTerms ''forex, bitcoin and casino evenings'') = 3
    \<and> detectSpamGroupInvite ''forex, bitcoin and casino evenings'' =
        \<lparr>isSpam = JBool True, confidence = JNum (Finite 80),
         reason = JStr ''Multiple spam indicators: forex, bitcoin, casino''\<rparr>)"
proof -
  let ?a = "''New group chat.whatsapp.com/AbCdEfGhIj1234567890 forex and bitcoin and casino nights and FOREX dating''"
  let ?b = "''Our yoga Course: chat.whatsapp.com/AbCdEfGhIj1234567890''"
  let ?c = "''forex, bitcoin and casino evenings''"
  have pa: "\<not> (\<exists>p \<in> set highConfidenceSpam. includesStr (toLowerCase ?a) p)"
    by code_simp
  have pb: "\<not> (\<exists>p \<in> set highConfidenceSpam. includesStr (toLowerCase ?b) p)"
    by code_simp
  have pc: "\<not> (\<exists>p \<in> set highConfidenceSpam. includesStr (toLowerCase ?c) p)"
    by code_simp
  have la: "groupInviteRegex_test ?a" by code_simp
  have lb: "groupInviteRegex_test ?b" by code_simp
  have lc: "\<not> groupInviteRegex_test ?c" by code_simp
  have ma: "matchedKeywords (toLowerCase ?a) = [''forex'', ''bitcoin'', ''casino'', ''dating'']"
    by code_simp
  have mb: "matchedKeywords (toLowerCase ?b) = [''course'']" by code_simp
  have mc: "matchedKeywords (toLowerCase ?c) = [''forex'', ''bitcoin'', ''casino'']"
    by code_simp
  have ka: "card (matchedTerms ?a) = 4" by (simp add: card_matchedTerms ma)
  have kb: "card (matchedTerms ?b) = 1" by (simp add: card_matchedTerms mb)
  have kc: "card (matchedTerms ?c) = 3" by (simp add: card_matchedTerms mc)
  from invite_and_vocabulary_rules [OF pa]
  have ia: "groupInviteRegex_test ?a \<and> 2 \<le> card (matchedTerms ?a) \<longrightarrow>
            detectSpamGroupInvite ?a =
              \<lparr>isSpam = JBool True, confidence = JNum (Finite 90),
               reason = JStr (''Group invite with spam keywords: '' @
                              join '', '' (take 3 (matchedKeywords (toLowerCase ?a))))\<rparr>"
    by (elim conjE)
  from invite_and_vocabulary_rules [OF pb]
  have ib: "groupInviteRegex_test ?b \<and> card (matchedTerms ?b) = 1 \<longrightarrow>
            (\<exists>k. matchedTerms ?b = {k} \<and>
                 detectSpamGroupInvite ?b =
                   \<lparr>isSpam = JBool True, confidence = JNum (Finite 75),
                    reason = JStr (''Group invite with suspicious keyword: '' @ k)\<rparr>)"
    by (elim conjE)
  from invite_and_vocabulary_rules [OF pc]
  have ic: "\<not> groupInviteRegex_test ?c \<and> 3 \<le> card (matchedTerms ?c) \<longrightarrow>
            detectSpamGroupInvite ?c =
              \<lparr>isSpam = JBool True, confidence = JNum (Finite 80),
               reason = JStr (''Multiple spam indicators: '' @
                              join '', '' (take 3 (matchedKeywords (toLowerCase ?c))))\<rparr>"
    by (elim conjE)
  have ka2: "2 \<le> card (matchedTerms ?a)" by (simp add: ka)
  have kc3: "3 \<le> card (matchedTerms ?c)" by (simp add: kc)
  have ja: "join '', '' (take 3 (matchedKeywords (toLowerCase ?a))) = ''forex, bitcoin, casino''"
    by (simp add: ma)
  have jc: "join '', '' (take 3 (matchedKeywords (toLowerCase ?c))) = ''forex, bitcoin, casino''"
    by (simp add: mc)
  have "detectSpamGroupInvite ?a =
              \<lparr>isSpam = JBool True, confidence = JNum (Finite 90),
               reason = JStr (''Group invite with spam keywords: '' @
                              join '', '' (take 3 (matchedKeywords (toLowerCase ?a))))\<rparr>"
    using la ka2 by (intro mp [OF ia] conjI)
  then have va: "detectSpamGroupInvite ?a =
        \<lparr>isSpam = JBool True, confidence = JNum (Finite 90),
         reason = JStr ''Group invite with spam keywords: forex, bitcoin, casino''\<rparr>"
    by (simp add: ja)
  have vb: "\<exists>k. matchedTerms ?b = {k} \<and>
            detectSpamGroupInvite ?b =
              \<lparr>isSpam = JBool True, confidence = JNum (Finite 75),
               reason = JStr (''Group invite with suspicious keyword: '' @ k)\<rparr>"
    using lb kb by (intro mp [OF ib] conjI)
  have "detectSpamGroupInvite ?c =
              \<lparr>isSpam = JBool True, confidence = JNum (Finite 80),
               reason = JStr (''Multiple spam indicators: '' @
                              join '', '' (take 3 (matchedKeywords (toLowerCase ?c))))\<rparr>"
    using lc kc3 by (intro mp [OF ic] conjI)
  then have vc: "detectSpamGroupInvite ?c =
        \<lparr>isSpam = JBool True, confidence = JNum (Finite 80),
         reason = JStr ''Multiple spam indicators: forex, bitcoin, casino''\<rparr>"
    by (simp add: jc)
  show ?thesis using pa pb pc la lb lc ka kb kc va vb vc by (intro conjI)
qed

text \<open>
  C4. The text of the specification's example starts with the high-confidence phrase
  \<open>join my trading group\<close>, so the rule engine returns confidence 95, not 90; its link
  is not an invite link for the matcher of the source, which looks for
  \<open>chat.whatsapp.com/\<close>; four vocabulary terms occur in it.
\<close>

theorem spec_example_verdict:
  "detectSpamGroupInvite
     ''Join my trading group https://chat.platform.com/AbCdEfGhIj1234567890 crypto signal guaranteed profit'' =
     \<lparr>isSpam = JBool True, confidence = JNum (Finite 95),
      reason = JStr ''High-confidence spam phrase: \"join my trading group\"''\<rparr>
   \<and> \<not> groupInviteRegex_test
     ''Join my trading group https://chat.platform.com/AbCdEfGhIj1234567890 crypto signal guaranteed profit''
   \<and> matchedKeywords (toLowerCase
     ''Join my trading group https://chat.platform.com/AbCdEfGhIj1234567890 crypto signal guaranteed profit'') =
     [''trading'', ''crypto'', ''crypto signal'', ''guaranteed profit'']"
  by code_simp

theorem spec_example_counterexample:
  "\<not> (isSpam (detectSpamGroupInvite
     ''Join my trading group https://chat.platform.com/AbCdEfGhIj1234567890 crypto signal guaranteed profit'') = JBool True
   \<and> confidence (detectSpamGroupInvite
     ''Join my trading group https://chat.platform.com/AbCdEfGhIj1234567890 crypto signal guaranteed profit'') = JNum (Finite 90))"
  by code_simp

section \<open>Properties of the rate gate\<close>

lemma runGate_admit:
  "c + n \<le> MAX_CHECKS_PER_MINUTE \<Longrightarrow> runGate (replicate n Check) c = (replicate n True, c + n)"
proof (induction n arbitrary: c)
  case 0
  show ?case by simp
next
  case (Suc n)
  from Suc.prems have lt: "\<not> MAX_CHECKS_PER_MINUTE \<le> c" and nx: "Suc c + n \<le> MAX_CHECKS_PER_MINUTE"
    by simp_all
  from Suc.IH [OF nx] lt show ?case
    by (simp add: rateGate_def)
qed

lemma runGate_deny:
  "MAX_CHECKS_PER_MINUTE \<le> c \<Longrightarrow> runGate (replicate k Check) c = (replicate k False, c)"
  by (induction k) (simp_all add: rateGate_def)

lemma runGate_append:
  "runGate (xs @ ys) c =
     (fst (runGate xs c) @ fst (runGate ys (snd (runGate xs c))),
      snd (runGate ys (snd (runGate xs c))))"
proof (induction xs arbitrary: c)
  case Nil
  show ?case by simp
next
  case (Cons ev evs)
  show ?case
  proof (cases ev)
    case Check
    with Cons.IH show ?thesis by (simp add: split_beta)
  next
    case Tick
    with Cons.IH show ?thesis by simp
  qed
qed

lemma runGate_window:
  "runGate (replicate n Check) 0 =
     (replicate (min n MAX_CHECKS_PER_MINUTE) True @ replicate (n - MAX_CHECKS_PER_MINUTE) False,
      min n MAX_CHECKS_PER_MINUTE)"
proof (cases "n \<le> MAX_CHECKS_PER_MINUTE")
  case True
  then show ?thesis using runGate_admit [of 0 n] by (simp add: min_def)
next
  case False
  let ?M = MAX_CHECKS_PER_MINUTE
  from False have n: "n = ?M + (n - ?M)" by simp
  have "replicate n Check = replicate ?M Check @ replicate (n - ?M) Check"
    by (subst n) (simp only: replicate_add)
  then have "runGate (replicate n Check) 0 =
             runGate (replicate ?M Check @ replicate (n - ?M) Check) 0"
    by simp
  also have "\<dots> = (replicate ?M True @ replicate (n - ?M) False, ?M)"
    using runGate_admit [of 0 ?M] runGate_deny [of ?M "n - ?M"]
    by (simp add: runGate_append)
  finally show ?thesis using False by (simp add: min_def)
qed

lemma isSpamMessage_gate:
  "reachesGate e message \<Longrightarrow>
   isSpamMessage e c message s g =
     (if MAX_CHECKS_PER_MINUTE \<le> c then (rateLimited, c)
      else (aiDetection e (detectSpamGroupInvite message) message s g, c + 1))"
  by (auto simp: reachesGate_def isSpamMessage_def rateGate_def Let_def)

text \<open>
  C7. The ceiling of the gate is 30. A call below the ceiling is admitted and increments
  the counter; a call at the ceiling is denied and leaves the counter as it is. Of \<open>n\<close>
  calls in a window that starts at zero, the first 30 are admitted and all the further
  ones denied, with the counter at \<open>min n 30\<close>. The timer's reset sets the counter to 0
  whatever happened before, and the calls after it are admitted again from zero. A message
  that arrives at the gate in \<open>isSpamMessage\<close> is rate limited at the ceiling, and
  goes to the classifier with the counter incremented below it.
\<close>

theorem rate_gate_window:
  "MAX_CHECKS_PER_MINUTE = 30
   \<and> rateGate c = (if c < MAX_CHECKS_PER_MINUTE then (True, c + 1) else (False, c))
   \<and> runGate (replicate n Check) 0 =
       (replicate (min n MAX_CHECKS_PER_MINUTE) True @
        replicate (n - MAX_CHECKS_PER_MINUTE) False, min n MAX_CHECKS_PER_MINUTE)
   \<and> resetRateLimit c = 0
   \<and> runGate (evs @ Tick # replicate n Check) c =
       (fst (runGate evs c) @ replicate (min n MAX_CHECKS_PER_MINUTE) True @
        replicate (n - MAX_CHECKS_PER_MINUTE) False, min n MAX_CHECKS_PER_MINUTE)
   \<and> (reachesGate e message \<longrightarrow>
        isSpamMessage e c message s g =
          (if MAX_CHECKS_PER_MINUTE \<le> c then (rateLimited, c)
           else (aiDetection e (detectSpamGroupInvite message) message s g, c + 1)))"
proof -
  have g: "rateGate c = (if c < MAX_CHECKS_PER_MINUTE then (True, c + 1) else (False, c))"
    by (simp add: rateGate_def)
  have t: "runGate (evs @ Tick # replicate n Check) c =
       (fst (runGate evs c) @ replicate (min n MAX_CHECKS_PER_MINUTE) True @
        replicate (n - MAX_CHECKS_PER_MINUTE) False, min n MAX_CHECKS_PER_MINUTE)"
    by (simp add: runGate_append resetRateLimit_def runGate_window)
  have o: "reachesGate e message \<longrightarrow>
        isSpamMessage e c message s g =
          (if MAX_CHECKS_PER_MINUTE \<le> c then (rateLimited, c)
           else (aiDetection e (detectSpamGroupInvite message) message s g, c + 1))"
    using isSpamMessage_gate by blast
  show ?thesis
    using MAX_CHECKS_PER_MINUTE_def g runGate_window [of n] resetRateLimit_def [of c] t o
    by (intro conjI)
qed

theorem rate_gate_window_witness:
  "reachesGate (envWith Throws) ''hello there''
   \<and> isSpamMessage (envWith Throws) 30 ''hello there'' ''Bob'' ''Neighbours'' = (rateLimited, 30)
   \<and> isSpamMessage (envWith Throws) 29 ''hello there'' ''Bob'' ''Neighbours'' = (apiError, 30)
   \<and> rateGate 30 = (False, 30)
   \<and> runGate (replicate 32 Check) 0 = (replicate 30 True @ replicate 2 False, 30)
   \<and> runGate (replicate 32 Check @ Tick # replicate 2 Check) 0 =
       (replicate 30 True @ replicate 2 False @ replicate 2 True, 2)"
proof -
  let ?e = "envWith Throws"
  have h: "reachesGate ?e ''hello there''" by code_simp
  have a: "aiDetection ?e (detectSpamGroupInvite ''hello there'') ''hello there'' ''Bob''
             ''Neighbours'' = apiError"
    by code_simp
  have f: "fst (runGate (replicate 32 Check) 0) = replicate 30 True @ replicate 2 False"
    by code_simp
  note t30 = rate_gate_window [of 30 32 "replicate 32 Check" ?e "''hello there''" "''Bob''" "''Neighbours''"]
  note t29 = rate_gate_window [of 29 2 "replicate 32 Check" ?e "''hello there''" "''Bob''" "''Neighbours''"]
  have m: "MAX_CHECKS_PER_MINUTE = 30" using t30 by (elim conjE)
  have v30: "isSpamMessage ?e 30 ''hello there'' ''Bob'' ''Neighbours'' = (rateLimited, 30)"
    using t30 h by (simp add: m)
  have v29: "isSpamMessage ?e 29 ''hello there'' ''Bob'' ''Neighbours'' = (apiError, 30)"
    using t29 h by (simp add: m a)
  have g30: "rateGate 30 = (False, 30)" using t30 by (simp add: m)
  have r32: "runGate (replicate 32 Check) 0 = (replicate 30 True @ replicate 2 False, 30)"
    using t30 by (simp add: m)
  note t0 = rate_gate_window [of 0 2 "replicate 32 Check" ?e "''hello there''" "''Bob''" "''Neighbours''"]
  have "runGate (replicate 32 Check @ Tick # replicate 2 Check) 0 =
       (fst (runGate (replicate 32 Check) 0) @ replicate 2 True, 2)"
    using t0 by (simp add: m)
  then have tk: "runGate (replicate 32 Check @ Tick # replicate 2 Check) 0 =
       (replicate 30 True @ replicate 2 False @ replicate 2 True, 2)"
    by (simp only: f append_assoc)
  show ?thesis using h v30 v29 g30 r32 tk by (intro conjI)
qed

section \<open>Properties of the message handler\<close>

lemma handleMessage_actions:
  "fst (handleMessage e c m) = [] \<or> fst (handleMessage e c m) = [DeleteForEveryone]"
  by (simp add: handleMessage_def split_beta split: option.split)

lemma handleMessage_not_admin:
  "getChat m = Some ch \<Longrightarrow> \<not> isBotAdmin e ch \<Longrightarrow> fst (handleMessage e c m) = []"
  by (simp add: handleMessage_def split_beta split: option.split)

lemma handleMessage_delete:
  assumes "fst (handleMessage e c m) \<noteq> []"
  shows "\<exists>ch b. getChat m = Some ch \<and> body m = Some b
           \<and> truthy (isSpam (fst (isSpamMessage e c b (senderNameOf m) (chatName ch))))
           \<and> isBotAdmin e ch \<and> \<not> dryRun (CONFIG e)
           \<and> fst (handleMessage e c m) = [DeleteForEveryone]"
proof (cases "getChat m")
  case None
  with assms show ?thesis by (simp add: handleMessage_def)
next
  case ch: (Some ch)
  show ?thesis
  proof (cases "body m")
    case None
    with assms ch show ?thesis by (simp add: handleMessage_def split: if_splits)
  next
    case b: (Some b)
    from assms ch b
    have "truthy (isSpam (fst (isSpamMessage e c b (senderNameOf m) (chatName ch))))
           \<and> isBotAdmin e ch \<and> \<not> dryRun (CONFIG e)
           \<and> fst (handleMessage e c m) = [DeleteForEveryone]"
      by (simp add: handleMessage_def split_beta split: if_splits)
    with ch b show ?thesis by simp
  qed
qed

text \<open>
  C9. Where the admin check of the message's chat returns false, \<open>handleMessage\<close>
  requests no deletion, whatever the verdict, its confidence and the dry-run setting; and
  a deletion is requested only when the verdict on the message body is spam, the admin
  check returns true and dry-run is off.
\<close>

theorem deletion_requires_admin:
  "(getChat m = Some ch \<and> \<not> isBotAdmin e ch \<longrightarrow> fst (handleMessage e c m) = [])
   \<and> (fst (handleMessage e c m) \<noteq> [] \<longrightarrow>
        (\<exists>ch b. getChat m = Some ch \<and> body m = Some b
           \<and> truthy (isSpam (fst (isSpamMessage e c b (senderNameOf m) (chatName ch))))
           \<and> isBotAdmin e ch \<and> \<not> dryRun (CONFIG e)
           \<and> fst (handleMessage e c m) = [DeleteForEveryone]))"
  using handleMessage_not_admin [of m ch e c] handleMessage_delete [of e c m]
  by (intro conjI impI) (elim conjE, assumption+)

theorem deletion_requires_admin_witness:
  "getChat (sampleMessage False ''win the LOTTERY'') = Some (sampleChat False)
   \<and> \<not> isBotAdmin (envWith Throws) (sampleChat False)
   \<and> isSpam (fst (isSpamMessage (envWith Throws) 0 ''win the LOTTERY''
         (senderNameOf (sampleMessage False ''win the LOTTERY'')) ''Neighbours'')) = JBool True
   \<and> \<not> dryRun (CONFIG (envWith Throws))
   \<and> fst (handleMessage (envWith Throws) 0 (sampleMessage False ''win the LOTTERY'')) = []
   \<and> fst (handleMessage (envWith Throws) 0 (sampleMessage True ''win the LOTTERY'')) \<noteq> []
   \<and> (\<exists>ch b. getChat (sampleMessage True ''win the LOTTERY'') = Some ch
         \<and> body (sampleMessage True ''win the LOTTERY'') = Some b
         \<and> truthy (isSpam (fst (isSpamMessage (envWith Throws) 0 b
              (senderNameOf (sampleMessage True ''win the LOTTERY'')) (chatName ch))))
         \<and> isBotAdmin (envWith Throws) ch \<and> \<not> dryRun (CONFIG (envWith Throws))
         \<and> fst (handleMessage (envWith Throws) 0 (sampleMessage True ''win the LOTTERY'')) =
             [DeleteForEveryone])"
proof -
  let ?e = "envWith Throws"
  let ?n = "sampleMessage False ''win the LOTTERY''"
  let ?a = "sampleMessage True ''win the LOTTERY''"
  have h1: "getChat ?n = Some (sampleChat False)" by (simp add: sampleMessage_def)
  have h2: "\<not> isBotAdmin ?e (sampleChat False)" by code_simp
  have h3: "isSpam (fst (isSpamMessage ?e 0 ''win the LOTTERY'' (senderNameOf ?n) ''Neighbours''))
            = JBool True"
    by code_simp
  have h4: "\<not> dryRun (CONFIG ?e)" by code_simp
  have h5: "fst (handleMessage ?e 0 ?a) \<noteq> []" by code_simp
  note tn = deletion_requires_admin [of ?n "sampleChat False" ?e 0]
  note ta = deletion_requires_admin [of ?a "sampleChat True" ?e 0]
  from tn have "getChat ?n = Some (sampleChat False) \<and> \<not> isBotAdmin ?e (sampleChat False)
                  \<longrightarrow> fst (handleMessage ?e 0 ?n) = []"
    by (elim conjE)
  with h1 h2 have v1: "fst (handleMessage ?e 0 ?n) = []" by (elim impE) (intro conjI)
  from ta have "fst (handleMessage ?e 0 ?a) \<noteq> [] \<longrightarrow>
        (\<exists>ch b. getChat ?a = Some ch \<and> body ?a = Some b
           \<and> truthy (isSpam (fst (isSpamMessage ?e 0 b (senderNameOf ?a) (chatName ch))))
           \<and> isBotAdmin ?e ch \<and> \<not> dryRun (CONFIG ?e)
           \<and> fst (handleMessage ?e 0 ?a) = [DeleteForEveryone])"
    by (elim conjE)
  with h5 have v2: "\<exists>ch b. getChat ?a = Some ch \<and> body ?a = Some b
           \<and> truthy (isSpam (fst (isSpamMessage ?e 0 b (senderNameOf ?a) (chatName ch))))
           \<and> isBotAdmin ?e ch \<and> \<not> dryRun (CONFIG ?e)
           \<and> fst (handleMessage ?e 0 ?a) = [DeleteForEveryone]"
    by (elim impE)
  show ?thesis using h1 h2 h3 h4 v1 h5 v2 by (intro conjI)
qed

section \<open>Properties of the path through the external classifier\<close>

lemma detect_in_range: "integerIn0to100 (confidence (detectSpamGroupInvite text))"
  by (simp add: detectSpamGroupInvite_def Let_def split: option.split)

lemma getProp_total:
  "result \<noteq> JUndefined \<Longrightarrow> result \<noteq> JNull \<Longrightarrow> \<exists>v. getProp result k = Some v"
  by (cases result) simp_all

lemma verdictOfResult_null:
  "verdictOfResult f JUndefined = None" "verdictOfResult f JNull = None"
  by (simp_all add: verdictOfResult_def)

lemma verdictOfResult_props:
  assumes "getProp result ''isSpam'' = Some sp"
    and "getProp result ''confidence'' = Some cf"
    and "getProp result ''reason'' = Some rs"
  shows "verdictOfResult f result =
           (if truthy sp then
              (case greaterEq f cf 70 of
                 None \<Rightarrow> None
               | Some b \<Rightarrow> Some \<lparr>isSpam = JBool b, confidence = cf, reason = rs\<rparr>)
            else Some \<lparr>isSpam = sp, confidence = cf, reason = rs\<rparr>)"
  using assms by (simp add: verdictOfResult_def)

lemma verdictOfResult_confidence:
  assumes "verdictOfResult f result = Some v"
  shows "getProp result ''confidence'' = Some (confidence v)"
proof -
  from assms have nn: "result \<noteq> JUndefined" "result \<noteq> JNull"
    by (auto simp: verdictOfResult_null)
  from getProp_total [OF nn] obtain sp where sp: "getProp result ''isSpam'' = Some sp"
    by blast
  from getProp_total [OF nn] obtain cf where cf: "getProp result ''confidence'' = Some cf"
    by blast
  from getProp_total [OF nn] obtain rs where rs: "getProp result ''reason'' = Some rs"
    by blast
  from assms have "confidence v = cf"
    unfolding verdictOfResult_props [OF sp cf rs]
    by (auto split: if_splits option.splits)
  with cf show ?thesis by simp
qed

lemma parseResponse_cases:
  "parseResponse e content = parseError
   \<or> (\<exists>j result. jsonMatch content = Some j \<and> JSON_parse e j = Some result
         \<and> getProp result ''confidence'' = Some (confidence (parseResponse e content)))"
proof (cases "jsonMatch content")
  case None
  then show ?thesis by (simp add: parseResponse_def)
next
  case j: (Some j)
  show ?thesis
  proof (cases "JSON_parse e j")
    case None
    with j show ?thesis by (simp add: parseResponse_def)
  next
    case r: (Some result)
    show ?thesis
    proof (cases "verdictOfResult (ToNumber e) result")
      case None
      with j r show ?thesis by (simp add: parseResponse_def)
    next
      case (Some v)
      with j r have "parseResponse e content = v" by (simp add: parseResponse_def)
      with verdictOfResult_confidence [OF Some] j r show ?thesis by simp
    qed
  qed
qed

lemma isSpamMessage_ai:
  assumes "reachesGate e message" and "c < MAX_CHECKS_PER_MINUTE"
    and "selectClient e = Some call"
  shows "isSpamMessage e c message s g =
           ((case call message s g of Throws \<Rightarrow> apiError
             | Returns content \<Rightarrow> parseResponse e content), c + 1)"
  using assms by (simp add: isSpamMessage_gate aiDetection_def)

lemma isSpamMessage_parsed:
  assumes "reachesGate e message" and "c < MAX_CHECKS_PER_MINUTE"
    and "selectClient e = Some call" and "call message s g = Returns content"
    and "jsonMatch content = Some j" and "JSON_parse e j = Some result"
    and "getProp result ''isSpam'' = Some sp"
    and "getProp result ''confidence'' = Some cf"
    and "getProp result ''reason'' = Some rs"
  shows "fst (isSpamMessage e c message s g) =
           (if truthy sp then
              (case greaterEq (ToNumber e) cf 70 of
                 None \<Rightarrow> parseError
               | Some b \<Rightarrow> \<lparr>isSpam = JBool b, confidence = cf, reason = rs\<rparr>)
            else \<lparr>isSpam = sp, confidence = cf, reason = rs\<rparr>)"
  using assms
  by (simp add: isSpamMessage_ai parseResponse_def verdictOfResult_props split: option.split)

lemma isSpamMessage_cases:
  "(\<exists>kw. fst (isSpamMessage e c message s g) =
           \<lparr>isSpam = JBool True, confidence = JNum (Finite 100),
            reason = JStr (''Contains blocked keyword: '' @ kw)\<rparr>)
   \<or> fst (isSpamMessage e c message s g) = detectSpamGroupInvite message
   \<or> fst (isSpamMessage e c message s g) = rateLimited
   \<or> fst (isSpamMessage e c message s g) = apiError
   \<or> (\<exists>call content. selectClient e = Some call \<and> call message s g = Returns content
         \<and> fst (isSpamMessage e c message s g) = parseResponse e content)"
proof (cases "find (\<lambda>keyword. includesStr (toLowerCase message) (toLowerCase keyword))
                   (customSpamKeywords (CONFIG e))")
  case (Some kw)
  then show ?thesis by (simp add: isSpamMessage_def)
next
  case None
  show ?thesis
  proof (cases "reachesGate e message")
    case False
    with None have "fst (isSpamMessage e c message s g) = detectSpamGroupInvite message"
      by (auto simp: isSpamMessage_def reachesGate_def Let_def)
    then show ?thesis by simp
  next
    case True
    show ?thesis
    proof (cases "MAX_CHECKS_PER_MINUTE \<le> c")
      case True
      with \<open>reachesGate e message\<close> show ?thesis by (simp add: isSpamMessage_gate)
    next
      case False
      show ?thesis
      proof (cases "selectClient e")
        case None
        with False \<open>reachesGate e message\<close> show ?thesis
          by (simp add: isSpamMessage_gate aiDetection_def)
      next
        case (Some call)
        with False \<open>reachesGate e message\<close> show ?thesis
          by (cases "call message s g") (simp_all add: isSpamMessage_gate aiDetection_def)
      qed
    qed
  qed
qed

text \<open>
  C5. For a reply that was parsed, on the path through the external classifier, the
  verdict's \<open>isSpam\<close> is \<open>result.isSpam && result.confidence >= 70\<close>, with no check
  that the reply's \<open>isSpam\<close> is a boolean. The verdict is spam only if the reply's
  \<open>isSpam\<close> converts to true and its confidence is at least 70. Where the reply's
  \<open>isSpam\<close> is a boolean and its confidence a number, the verdict's \<open>isSpam\<close> is true
  exactly when the reply's is true and the confidence is at least 70, 70 included, and
  false otherwise. Where the reply's \<open>isSpam\<close> converts to true without being a boolean
  and the confidence is a number, the verdict's \<open>isSpam\<close> is the boolean "confidence at
  least 70". Where the reply's \<open>isSpam\<close> converts to false, the verdict's \<open>isSpam\<close> is
  that value itself. In each of these cases the verdict carries the reply's confidence
  and reason unchanged.
\<close>

theorem ai_threshold_gating:
  assumes "reachesGate e message" and "c < MAX_CHECKS_PER_MINUTE"
    and "selectClient e = Some call" and "call message s g = Returns content"
    and "jsonMatch content = Some j" and "JSON_parse e j = Some result"
    and "getProp result ''isSpam'' = Some sp"
    and "getProp result ''confidence'' = Some cf"
    and "getProp result ''reason'' = Some rs"
  shows "(truthy (isSpam (fst (isSpamMessage e c message s g))) \<longrightarrow>
            truthy sp \<and> greaterEq (ToNumber e) cf 70 = Some True)
       \<and> (sp = JBool t \<and> cf = JNum (Finite r) \<longrightarrow>
            fst (isSpamMessage e c message s g) =
              \<lparr>isSpam = JBool (t \<and> 70 \<le> r), confidence = cf, reason = rs\<rparr>)
       \<and> (truthy sp \<and> cf = JNum (Finite r) \<longrightarrow>
            fst (isSpamMessage e c message s g) =
              \<lparr>isSpam = JBool (70 \<le> r), confidence = cf, reason = rs\<rparr>)
       \<and> (\<not> truthy sp \<longrightarrow>
            fst (isSpamMessage e c message s g) =
              \<lparr>isSpam = sp, confidence = cf, reason = rs\<rparr>)"
proof -
  note v = isSpamMessage_parsed [OF assms]
  have a: "truthy (isSpam (fst (isSpamMessage e c message s g))) \<longrightarrow>
            truthy sp \<and> greaterEq (ToNumber e) cf 70 = Some True"
    unfolding v by (auto simp: parseError_def split: option.split)
  have b: "sp = JBool t \<and> cf = JNum (Finite r) \<longrightarrow>
            fst (isSpamMessage e c message s g) =
              \<lparr>isSpam = JBool (t \<and> 70 \<le> r), confidence = cf, reason = rs\<rparr>"
    unfolding v by (auto simp: greaterEq_def)
  have c: "truthy sp \<and> cf = JNum (Finite r) \<longrightarrow>
            fst (isSpamMessage e c message s g) =
              \<lparr>isSpam = JBool (70 \<le> r), confidence = cf, reason = rs\<rparr>"
    unfolding v by (auto simp: greaterEq_def)
  have d: "\<not> truthy sp \<longrightarrow>
            fst (isSpamMessage e c message s g) =
              \<lparr>isSpam = sp, confidence = cf, reason = rs\<rparr>"
    unfolding v by simp
  show ?thesis using a b c d by (intro conjI)
qed

lemma envWith_client: "selectClient (envWith out) = Some (\<lambda>message senderName groupName. out)"
  by (simp add: selectClient_def envWith_def sampleConfig_def)

lemma ceiling_above_3: "3 < MAX_CHECKS_PER_MINUTE"
  by (simp add: MAX_CHECKS_PER_MINUTE_def)

theorem ai_threshold_gating_witness:
  "reachesGate
     (envWith (Returns ''{\"isSpam\": true, \"confidence\": 65, \"reason\": \"promo\"}''))
     ''hello there''
   \<and> fst (isSpamMessage
         (envWith (Returns ''{\"isSpam\": true, \"confidence\": 65, \"reason\": \"promo\"}''))
         3 ''hello there'' ''Bob'' ''Neighbours'') =
       \<lparr>isSpam = JBool False, confidence = JNum (Finite 65), reason = JStr ''promo''\<rparr>
   \<and> reachesGate
     (envWith (Returns ''Verdict: {\"isSpam\": true, \"confidence\": 70, \"reason\": \"promo\"} (done)''))
     ''hello there''
   \<and> fst (isSpamMessage
         (envWith (Returns ''Verdict: {\"isSpam\": true, \"confidence\": 70, \"reason\": \"promo\"} (done)''))
         3 ''hello there'' ''Bob'' ''Neighbours'') =
       \<lparr>isSpam = JBool True, confidence = JNum (Finite 70), reason = JStr ''promo''\<rparr>
   \<and> reachesGate (envWith (Returns ''{\"isSpam\": null, \"confidence\": 65}'')) ''hello there''
   \<and> fst (isSpamMessage (envWith (Returns ''{\"isSpam\": null, \"confidence\": 65}''))
         3 ''hello there'' ''Bob'' ''Neighbours'') =
       \<lparr>isSpam = JNull, confidence = JNum (Finite 65), reason = JUndefined\<rparr>"
proof -
  let ?r65 = "''{\"isSpam\": true, \"confidence\": 65, \"reason\": \"promo\"}''"
  let ?c70 = "''Verdict: {\"isSpam\": true, \"confidence\": 70, \"reason\": \"promo\"} (done)''"
  let ?r70 = "''{\"isSpam\": true, \"confidence\": 70, \"reason\": \"promo\"}''"
  let ?rn = "''{\"isSpam\": null, \"confidence\": 65}''"
  let ?o65 = "JObj [(''isSpam'', JBool True), (''confidence'', JNum (Finite 65)),
                    (''reason'', JStr ''promo'')]"
  let ?o70 = "JObj [(''isSpam'', JBool True), (''confidence'', JNum (Finite 70)),
                    (''reason'', JStr ''promo'')]"
  let ?on = "JObj [(''isSpam'', JNull), (''confidence'', JNum (Finite 65))]"
  have g65: "reachesGate (envWith (Returns ?r65)) ''hello there''" by code_simp
  have g70: "reachesGate (envWith (Returns ?c70)) ''hello there''" by code_simp
  have gn: "reachesGate (envWith (Returns ?rn)) ''hello there''" by code_simp
  have call65: "(\<lambda>message senderName groupName. Returns ?r65) ''hello there'' ''Bob'' ''Neighbours''
                = Returns ?r65"
    by simp
  have call70: "(\<lambda>message senderName groupName. Returns ?c70) ''hello there'' ''Bob'' ''Neighbours''
                = Returns ?c70"
    by simp
  have calln: "(\<lambda>message senderName groupName. Returns ?rn) ''hello there'' ''Bob'' ''Neighbours''
                = Returns ?rn"
    by simp
  have m65: "jsonMatch ?r65 = Some ?r65" by code_simp
  have m70: "jsonMatch ?c70 = Some ?r70" by code_simp
  have mn: "jsonMatch ?rn = Some ?rn" by code_simp
  have p65: "JSON_parse (envWith (Returns ?r65)) ?r65 = Some ?o65" by code_simp
  have p70: "JSON_parse (envWith (Returns ?c70)) ?r70 = Some ?o70" by code_simp
  have pn: "JSON_parse (envWith (Returns ?rn)) ?rn = Some ?on" by code_simp
  have s65: "getProp ?o65 ''isSpam'' = Some (JBool True)" by code_simp
  have c65: "getProp ?o65 ''confidence'' = Some (JNum (Finite 65))" by code_simp
  have r65: "getProp ?o65 ''reason'' = Some (JStr ''promo'')" by code_simp
  have s70: "getProp ?o70 ''isSpam'' = Some (JBool True)" by code_simp
  have c70: "getProp ?o70 ''confidence'' = Some (JNum (Finite 70))" by code_simp
  have r70: "getProp ?o70 ''reason'' = Some (JStr ''promo'')" by code_simp
  have sn: "getProp ?on ''isSpam'' = Some JNull" by code_simp
  have cn: "getProp ?on ''confidence'' = Some (JNum (Finite 65))" by code_simp
  have rn: "getProp ?on ''reason'' = Some JUndefined" by code_simp
  note t65 = ai_threshold_gating [OF g65 ceiling_above_3 envWith_client call65 m65 p65 s65 c65 r65,
      where r = 65 and t = True]
  note t70 = ai_threshold_gating [OF g70 ceiling_above_3 envWith_client call70 m70 p70 s70 c70 r70,
      where r = 70 and t = True]
  note tn = ai_threshold_gating [OF gn ceiling_above_3 envWith_client calln mn pn sn cn rn,
      where r = 65 and t = True]
  let ?v65 = "fst (isSpamMessage (envWith (Returns ?r65)) 3 ''hello there'' ''Bob'' ''Neighbours'')"
  let ?v70 = "fst (isSpamMessage (envWith (Returns ?c70)) 3 ''hello there'' ''Bob'' ''Neighbours'')"
  let ?vn = "fst (isSpamMessage (envWith (Returns ?rn)) 3 ''hello there'' ''Bob'' ''Neighbours'')"
  from t65 have v65: "?v65 = \<lparr>isSpam = JBool False, confidence = JNum (Finite 65),
                              reason = JStr ''promo''\<rparr>"
    by simp
  from t70 have v70: "?v70 = \<lparr>isSpam = JBool True, confidence = JNum (Finite 70),
                              reason = JStr ''promo''\<rparr>"
    by simp
  from tn have vn: "?vn = \<lparr>isSpam = JNull, confidence = JNum (Finite 65),
                            reason = JUndefined\<rparr>"
    by simp
  show ?thesis using g65 v65 g70 v70 gn vn by (intro conjI)
qed

theorem ai_threshold_gating_counterexample:
  "JSON_parse (envWith (Returns ''{\"isSpam\": \"false\", \"confidence\": 80}''))
     ''{\"isSpam\": \"false\", \"confidence\": 80}'' =
     Some (JObj [(''isSpam'', JStr ''false''), (''confidence'', JNum (Finite 80))])
   \<and> isSpamMessage (envWith (Returns ''{\"isSpam\": \"false\", \"confidence\": 80}'')) 0
        ''hello there'' ''Bob'' ''Neighbours'' =
       (\<lparr>isSpam = JBool True, confidence = JNum (Finite 80), reason = JUndefined\<rparr>, 1)
   \<and> JSON_parse (envWith (Returns ''{\"isSpam\": null, \"confidence\": 65}''))
        ''{\"isSpam\": null, \"confidence\": 65}'' =
       Some (JObj [(''isSpam'', JNull), (''confidence'', JNum (Finite 65))])
   \<and> isSpamMessage (envWith (Returns ''{\"isSpam\": null, \"confidence\": 65}'')) 0
        ''hello there'' ''Bob'' ''Neighbours'' =
       (\<lparr>isSpam = JNull, confidence = JNum (Finite 65), reason = JUndefined\<rparr>, 1)
   \<and> isSpam (fst (isSpamMessage (envWith (Returns ''{\"isSpam\": null, \"confidence\": 65}'')) 0
        ''hello there'' ''Bob'' ''Neighbours'')) \<noteq> JBool False"
  by code_simp

text \<open>
  C6. On the path through the external classifier: when the call of the provider throws,
  the verdict is \<open>isSpam = false\<close>, confidence 0, reason \<open>API error\<close>; when the reply
  holds no \<open>{...}\<close> region, when \<open>JSON.parse\<close> of the region fails, or when building
  the verdict from the parsed value throws, the verdict is \<open>isSpam = false\<close>, confidence
  0, reason \<open>Parse error\<close>; a parsed value is not checked for its shape, and the
  verdict built from its fields is returned as it is. In each case \<open>isSpamMessage\<close>
  returns a verdict, with the counter incremented.
\<close>

theorem ai_failure_verdicts:
  assumes "reachesGate e message" and "c < MAX_CHECKS_PER_MINUTE"
    and "selectClient e = Some call"
  shows "(call message s g = Throws \<longrightarrow>
            isSpamMessage e c message s g = (apiError, c + 1))
       \<and> (call message s g = Returns content \<and> jsonMatch content = None \<longrightarrow>
            isSpamMessage e c message s g = (parseError, c + 1))
       \<and> (call message s g = Returns content \<and> jsonMatch content = Some j
            \<and> JSON_parse e j = None \<longrightarrow>
            isSpamMessage e c message s g = (parseError, c + 1))
       \<and> (call message s g = Returns content \<and> jsonMatch content = Some j
            \<and> JSON_parse e j = Some result \<and> verdictOfResult (ToNumber e) result = None \<longrightarrow>
            isSpamMessage e c message s g = (parseError, c + 1))
       \<and> (call message s g = Returns content \<and> jsonMatch content = Some j
            \<and> JSON_parse e j = Some result \<and> verdictOfResult (ToNumber e) result = Some v \<longrightarrow>
            isSpamMessage e c message s g = (v, c + 1))
       \<and> apiError = \<lparr>isSpam = JBool False, confidence = JNum (Finite 0),
                       reason = JStr ''API error''\<rparr>
       \<and> parseError = \<lparr>isSpam = JBool False, confidence = JNum (Finite 0),
                         reason = JStr ''Parse error''\<rparr>"
proof -
  note v = isSpamMessage_ai [OF assms]
  have t: "call message s g = Throws \<longrightarrow> isSpamMessage e c message s g = (apiError, c + 1)"
    unfolding v by simp
  have n: "call message s g = Returns content \<and> jsonMatch content = None \<longrightarrow>
            isSpamMessage e c message s g = (parseError, c + 1)"
    unfolding v by (simp add: parseResponse_def)
  have p: "call message s g = Returns content \<and> jsonMatch content = Some j
            \<and> JSON_parse e j = None \<longrightarrow>
            isSpamMessage e c message s g = (parseError, c + 1)"
    unfolding v by (simp add: parseResponse_def)
  have b: "call message s g = Returns content \<and> jsonMatch content = Some j
            \<and> JSON_parse e j = Some result \<and> verdictOfResult (ToNumber e) result = None \<longrightarrow>
            isSpamMessage e c message s g = (parseError, c + 1)"
    unfolding v by (simp add: parseResponse_def)
  have k: "call message s g = Returns content \<and> jsonMatch content = Some j
            \<and> JSON_parse e j = Some result \<and> verdictOfResult (ToNumber e) result = Some v \<longrightarrow>
            isSpamMessage e c message s g = (v, c + 1)"
    unfolding v by (simp add: parseResponse_def)
  show ?thesis using t n p b k apiError_def parseError_def by (intro conjI)
qed

theorem ai_failure_verdicts_witness:
  "reachesGate (envWith Throws) ''hello there''
   \<and> isSpamMessage (envWith Throws) 3 ''hello there'' ''Bob'' ''Neighbours'' = (apiError, 4)
   \<and> jsonMatch ''I cannot decide.'' = None
   \<and> isSpamMessage (envWith (Returns ''I cannot decide.'')) 3 ''hello there'' ''Bob''
        ''Neighbours'' = (parseError, 4)
   \<and> jsonMatch ''Here: {isSpam: maybe}'' = Some ''{isSpam: maybe}''
   \<and> JSON_parse (envWith (Returns ''Here: {isSpam: maybe}'')) ''{isSpam: maybe}'' = None
   \<and> isSpamMessage (envWith (Returns ''Here: {isSpam: maybe}'')) 3 ''hello there'' ''Bob''
        ''Neighbours'' = (parseError, 4)"
proof -
  let ?n = "''I cannot decide.''"
  let ?b = "''Here: {isSpam: maybe}''"
  have gt: "reachesGate (envWith Throws) ''hello there''" by code_simp
  have gn: "reachesGate (envWith (Returns ?n)) ''hello there''" by code_simp
  have gb: "reachesGate (envWith (Returns ?b)) ''hello there''" by code_simp
  have mn: "jsonMatch ?n = None" by code_simp
  have mb: "jsonMatch ?b = Some ''{isSpam: maybe}''" by code_simp
  have pb: "JSON_parse (envWith (Returns ?b)) ''{isSpam: maybe}'' = None" by code_simp
  note tt = ai_failure_verdicts [OF gt ceiling_above_3 envWith_client,
      where s = "''Bob''" and g = "''Neighbours''"]
  note tn = ai_failure_verdicts [OF gn ceiling_above_3 envWith_client,
      where s = "''Bob''" and g = "''Neighbours''" and content = ?n]
  note tb = ai_failure_verdicts [OF gb ceiling_above_3 envWith_client,
      where s = "''Bob''" and g = "''Neighbours''" and content = ?b and j = "''{isSpam: maybe}''"]
  from tt have vt: "isSpamMessage (envWith Throws) 3 ''hello there'' ''Bob'' ''Neighbours'' =
                      (apiError, 4)"
    by simp
  from tn mn have vn: "isSpamMessage (envWith (Returns ?n)) 3 ''hello there'' ''Bob''
                         ''Neighbours'' = (parseError, 4)"
    by simp
  from tb mb pb have vb: "isSpamMessage (envWith (Returns ?b)) 3 ''hello there'' ''Bob''
                            ''Neighbours'' = (parseError, 4)"
    by simp
  show ?thesis using gt vt mn vn mb pb vb by (intro conjI)
qed

theorem ai_failure_counterexample:
  "isSpamMessage (envWith Throws) 0 ''hello there'' ''Bob'' ''Neighbours'' =
     (\<lparr>isSpam = JBool False, confidence = JNum (Finite 0), reason = JStr ''API error''\<rparr>, 1)
   \<and> reason (fst (isSpamMessage (envWith Throws) 0 ''hello there'' ''Bob'' ''Neighbours''))
       \<noteq> JStr ''provider error''
   \<and> reason (fst (isSpamMessage (envWith (Returns ''I cannot decide.'')) 0 ''hello there''
                    ''Bob'' ''Neighbours''))
       \<noteq> JStr ''parse error''
   \<and> isSpamMessage (envWith (Returns ''{\"isSpam\": 1, \"confidence\": 80}'')) 0
        ''hello there'' ''Bob'' ''Neighbours'' =
     (\<lparr>isSpam = JBool True, confidence = JNum (Finite 80), reason = JUndefined\<rparr>, 1)"
  by code_simp

text \<open>
  C8. The confidence of the verdict of \<open>isSpamMessage\<close> is an integer from 0 to 100 on
  every path but one: where the verdict is built from a parsed reply of the external
  classifier, its confidence is the \<open>confidence\<close> field of that reply, as it is.
\<close>

theorem confidence_range_except_ai_verdict:
  "integerIn0to100 (confidence (fst (isSpamMessage e c message s g)))
   \<or> (\<exists>call content j result.
         selectClient e = Some call \<and> call message s g = Returns content
       \<and> jsonMatch content = Some j \<and> JSON_parse e j = Some result
       \<and> getProp result ''confidence'' =
           Some (confidence (fst (isSpamMessage e c message s g))))"
proof -
  let ?v = "fst (isSpamMessage e c message s g)"
  from isSpamMessage_cases [of e c message s g]
  consider (kw) kw where "?v = \<lparr>isSpam = JBool True, confidence = JNum (Finite 100),
                                  reason = JStr (''Contains blocked keyword: '' @ kw)\<rparr>"
    | (rule) "?v = detectSpamGroupInvite message"
    | (rate) "?v = rateLimited"
    | (api) "?v = apiError"
    | (ai) call content where "selectClient e = Some call" "call message s g = Returns content"
        "?v = parseResponse e content"
    by blast
  then show ?thesis
  proof cases
    case kw
    then show ?thesis by simp
  next
    case rule
    then show ?thesis by (simp add: detect_in_range)
  next
    case rate
    then show ?thesis by (simp add: rateLimited_def)
  next
    case api
    then show ?thesis by (simp add: apiError_def)
  next
    case ai
    from parseResponse_cases [of e content] show ?thesis
    proof
      assume "parseResponse e content = parseError"
      with ai show ?thesis by (simp add: parseError_def)
    next
      assume "\<exists>j result. jsonMatch content = Some j \<and> JSON_parse e j = Some result
         \<and> getProp result ''confidence'' = Some (confidence (parseResponse e content))"
      with ai show ?thesis by auto
    qed
  qed
qed

theorem confidence_range_except_ai_verdict_witness:
  "integerIn0to100 (confidence (fst (isSpamMessage
       (envWith (Returns ''{\"isSpam\": true, \"confidence\": 65, \"reason\": \"promo\"}''))
       0 ''hello there'' ''Bob'' ''Neighbours'')))
   \<and> (integerIn0to100 (confidence (fst (isSpamMessage
       (envWith (Returns ''{\"isSpam\": true, \"confidence\": 150, \"reason\": \"scam\"}''))
       0 ''hello there'' ''Bob'' ''Neighbours'')))
      \<or> (\<exists>call content j result.
         selectClient
           (envWith (Returns ''{\"isSpam\": true, \"confidence\": 150, \"reason\": \"scam\"}''))
           = Some call
       \<and> call ''hello there'' ''Bob'' ''Neighbours'' = Returns content
       \<and> jsonMatch content = Some j
       \<and> JSON_parse
           (envWith (Returns ''{\"isSpam\": true, \"confidence\": 150, \"reason\": \"scam\"}''))
           j = Some result
       \<and> getProp result ''confidence'' =
           Some (confidence (fst (isSpamMessage
             (envWith (Returns ''{\"isSpam\": true, \"confidence\": 150, \"reason\": \"scam\"}''))
             0 ''hello there'' ''Bob'' ''Neighbours'')))))"
proof -
  have a: "integerIn0to100 (confidence (fst (isSpamMessage
       (envWith (Returns ''{\"isSpam\": true, \"confidence\": 65, \"reason\": \"promo\"}''))
       0 ''hello there'' ''Bob'' ''Neighbours'')))"
    by code_simp
  note b = confidence_range_except_ai_verdict
    [of "envWith (Returns ''{\"isSpam\": true, \"confidence\": 150, \"reason\": \"scam\"}'')"
        0 "''hello there''" "''Bob''" "''Neighbours''"]
  show ?thesis using a b by (intro conjI)
qed

theorem confidence_range_counterexample:
  "confidence (fst (isSpamMessage
       (envWith (Returns ''{\"isSpam\": true, \"confidence\": 150, \"reason\": \"scam\"}''))
       0 ''hello there'' ''Bob'' ''Neighbours'')) = JNum (Finite 150)
   \<and> isSpam (fst (isSpamMessage
       (envWith (Returns ''{\"isSpam\": true, \"confidence\": 150, \"reason\": \"scam\"}''))
       0 ''hello there'' ''Bob'' ''Neighbours'')) = JBool True
   \<and> \<not> integerIn0to100 (confidence (fst (isSpamMessage
       (envWith (Returns ''{\"isSpam\": true, \"confidence\": 150, \"reason\": \"scam\"}''))
       0 ''hello there'' ''Bob'' ''Neighbours'')))"
  by code_simp

end
